theory Spec2Isabelle
  imports Complex_Main "HOL-Library.Multiset"
begin

section \<open>Numbers and small utilities\<close>

text \<open>
  The TypeScript \<^verbatim>\<open>number\<close> values of the zoom engine (scales, offsets, sizes,
  velocities) are embedded as \<^typ>\<open>real\<close>; the pan-gesture counter, which only ever
  holds small whole numbers, as \<^typ>\<open>int\<close>.
\<close>

text \<open>\<^verbatim>\<open>utils/clamp\<close>: \<^verbatim>\<open>Math.min(Math.max(min, value), max)\<close>.\<close>

definition clamp :: "real \<Rightarrow> real \<Rightarrow> real \<Rightarrow> real" where
  "clamp v lo hi = min (max lo v) hi"

text \<open>
  \<^verbatim>\<open>utils/sum\<close>: a \<^verbatim>\<open>reduce\<close> over the current values of the given shared
  values, starting from 0.
\<close>

definition sum_values :: "real list \<Rightarrow> real" where
  "sum_values animatedValues = foldl (\<lambda>result v. result + v) 0 animatedValues"

subsection \<open>Limit calculator (\<^verbatim>\<open>utils/limits\<close>)\<close>

text \<open>
  Each function receives the container size and the scale cell, of which it reads the
  current value; the embedding passes that value.
\<close>

definition limits_right :: "real \<Rightarrow> real \<Rightarrow> real" where
  "limits_right w sc = (w * (sc - 1)) / 2"

definition limits_left :: "real \<Rightarrow> real \<Rightarrow> real" where
  "limits_left w sc = - limits_right w sc"

definition limits_bottom :: "real \<Rightarrow> real \<Rightarrow> real" where
  "limits_bottom h sc = (h * (sc - 1)) / 2"

definition limits_top :: "real \<Rightarrow> real \<Rightarrow> real" where
  "limits_top h sc = - limits_bottom h sc"

subsection \<open>Pan gesture counter (\<^verbatim>\<open>usePanGestureCount\<close>)\<close>

text \<open>
  The hook keeps one mutable counter, initially 0. Each operation is a function of the
  counter: \<^verbatim>\<open>isPanning\<close> reads it, \<^verbatim>\<open>startPan\<close> and \<^verbatim>\<open>endPan\<close> return the
  new counter.
\<close>

definition panGestureCount_init :: int where
  "panGestureCount_init = 0"

definition isPanning :: "int \<Rightarrow> bool" where
  "isPanning c = (c > 0)"

definition startPan :: "int \<Rightarrow> int" where
  "startPan c = c + 1"

definition endPan :: "int \<Rightarrow> int" where
  "endPan c = (if c > 0 then c - 1 else c)"

datatype pan_op = StartPan | EndPan

fun pan_step :: "int \<Rightarrow> pan_op \<Rightarrow> int" where
  "pan_step c StartPan = startPan c"
| "pan_step c EndPan = endPan c"

definition pan_run :: "pan_op list \<Rightarrow> int \<Rightarrow> int" where
  "pan_run ops c = foldl pan_step c ops"

section \<open>Data model of the gesture engine\<close>

datatype ANIMATION_VALUE = SCALE | FOCAL_X | FOCAL_Y | TRANSLATE_X | TRANSLATE_Y

datatype ZOOM_TYPE = ZOOM_IN | ZOOM_OUT

text \<open>
  One entry of the end-values record: \<^verbatim>\<open>{ lastValue, finished, current }\<close>. The
  last two are optional arguments of the animation callback, hence \<^typ>\<open>'a option\<close>
  (\<^const>\<open>None\<close> is \<^verbatim>\<open>undefined\<close>).
\<close>

record end_value =
  lastValue :: real
  finished :: "bool option"
  current :: "real option"

type_synonym PartialEndValues = "ANIMATION_VALUE \<rightharpoonup> end_value"

type_synonym InteractionEndValues = "string \<rightharpoonup> PartialEndValues"

text \<open>The fields of a pan gesture event that the handlers read.\<close>

record pan_event =
  translationX :: real
  translationY :: real
  velocityX :: real
  velocityY :: real

text \<open>The fields of a pinch gesture event that the handlers read.\<close>

record pinch_event =
  pinch_scale :: real
  focalX :: real
  focalY :: real

text \<open>The argument of the programmatic \<^verbatim>\<open>zoom\<close>.\<close>

record zoom_event =
  zoom_scale :: real
  zoom_x :: real
  zoom_y :: real

text \<open>
  A call handed to the JS thread by \<^verbatim>\<open>runOnJS\<close>. The hand-off is fire-and-forget;
  the state keeps the calls in the order they were issued.
\<close>

datatype js_call =
    Call_onResetAnimationEnd bool PartialEndValues
  | Call_onProgrammaticZoom ZOOM_TYPE
  | Call_onPanStarted pan_event
  | Call_onPanEnded pan_event bool

text \<open>
  The completion callbacks that the engine attaches to animations, as data: the closure
  built in \<^verbatim>\<open>reset\<close> around \<^verbatim>\<open>onAnimationEnd\<close> (interaction id, target, value
  before the animation), and the two closures of a pan's release decay (event and success
  flag captured).
\<close>

datatype callback =
    ResetEnd string ANIMATION_VALUE real
  | DecayEndX pan_event bool
  | DecayEndY pan_event bool

record decay_config =
  velocity :: real
  velocityFactor :: real
  rubberBandEffect :: bool
  rubberBandFactor :: real
  clamp_lo :: real
  clamp_hi :: real

datatype animation =
    WithTiming real "callback option"
  | WithDecay decay_config callback

text \<open>
  The props of \<^verbatim>\<open>useGestures\<close> that the modelled functions read.
  \<^verbatim>\<open>onResetAnimationEnd\<close> is an optional callback: the field says whether it was
  supplied.
\<close>

record config =
  width :: real
  height :: real
  center_x :: real
  center_y :: real
  minScale :: real
  maxScale :: real
  doubleTapScale :: real
  isDoubleTapEnabled :: bool
  onResetAnimationEnd :: bool

text \<open>
  The shared values of the engine, the interaction id, the aggregator's per-session
  records, the animations handed to the animation engine (\<open>started\<close>, in the order of the
  assignments \<^verbatim>\<open>cell.value = withTiming(...)\<close> or \<^verbatim>\<open>withDecay(...)\<close>) and the
  calls handed to the JS thread (\<open>js\<close>). Assigning an animation to a cell does not change
  the value read from the cell in the same handler.
\<close>

record state =
  scale :: real
  savedScale :: real
  initialFocal_x :: real
  initialFocal_y :: real
  savedFocal_x :: real
  savedFocal_y :: real
  focal_x :: real
  focal_y :: real
  savedTranslate_x :: real
  savedTranslate_y :: real
  translate_x :: real
  translate_y :: real
  interactionId :: string
  endValues :: InteractionEndValues
  started :: "(ANIMATION_VALUE \<times> animation) list"
  js :: "js_call list"

text \<open>The state right after the hooks are created.\<close>

definition initial_state :: state where
  "initial_state = \<lparr> scale = 1, savedScale = 1,
     initialFocal_x = 0, initialFocal_y = 0, savedFocal_x = 0, savedFocal_y = 0,
     focal_x = 0, focal_y = 0, savedTranslate_x = 0, savedTranslate_y = 0,
     translate_x = 0, translate_y = 0, interactionId = [],
     endValues = Map.empty, started = [], js = [] \<rparr>"

definition runOnJS :: "js_call \<Rightarrow> state \<Rightarrow> state" where
  "runOnJS c s = s\<lparr> js := js s @ [c] \<rparr>"

definition assign_animation :: "ANIMATION_VALUE \<Rightarrow> animation \<Rightarrow> state \<Rightarrow> state" where
  "assign_animation cell a s = s\<lparr> started := started s @ [(cell, a)] \<rparr>"

definition getInteractionId :: "state \<Rightarrow> string" where
  "getInteractionId s = interactionId s"

section \<open>Animation completion aggregator (\<^verbatim>\<open>useAnimationEnd\<close>)\<close>

definition ANIMATION_VALUES :: "ANIMATION_VALUE list" where
  "ANIMATION_VALUES = [SCALE, FOCAL_X, FOCAL_Y, TRANSLATE_X, TRANSLATE_Y]"

text \<open>\<^verbatim>\<open>ANIMATION_VALUES.every((item) => !!endValues[item])\<close>; an entry is an object,
  so it is truthy exactly when it is present.\<close>

definition isAnimationComplete :: "PartialEndValues \<Rightarrow> bool" where
  "isAnimationComplete ev = list_all (\<lambda>item. ev item \<noteq> None) ANIMATION_VALUES"

text \<open>Truthiness of the optional flag \<^verbatim>\<open>finished\<close>.\<close>

definition truthy :: "bool option \<Rightarrow> bool" where
  "truthy f = (f = Some True)"

text \<open>
  \<^verbatim>\<open>Object.values\<close> of a record whose keys are animation targets: the entries that are
  present. (JavaScript lists them in insertion order; the only use is a \<^verbatim>\<open>some\<close>
  test, which does not depend on the order.)
\<close>

definition Object_values :: "PartialEndValues \<Rightarrow> end_value list" where
  "Object_values ev = List.map_filter ev ANIMATION_VALUES"

definition onAnimationEnd ::
  "config \<Rightarrow> string \<Rightarrow> ANIMATION_VALUE \<Rightarrow> real \<Rightarrow> bool option \<Rightarrow> real option \<Rightarrow> state \<Rightarrow> state"
where
  "onAnimationEnd cfg iid v lastV fin cur s =
    (if onResetAnimationEnd cfg then
       (let currentEndValues0 = (case endValues s iid of Some r \<Rightarrow> r | None \<Rightarrow> Map.empty);
            currentEndValues = currentEndValues0(v \<mapsto> \<lparr> lastValue = lastV, finished = fin, current = cur \<rparr>)
        in if isAnimationComplete currentEndValues then
             (let completed = (\<not> list_ex (\<lambda>item. \<not> truthy (finished item)) (Object_values currentEndValues));
                  s1 = runOnJS (Call_onResetAnimationEnd completed currentEndValues) s
              in s1\<lparr> endValues := (endValues s1)(iid := None) \<rparr>)
           else s\<lparr> endValues := (endValues s)(iid \<mapsto> currentEndValues) \<rparr>)
     else s)"

text \<open>
  A completion as the animation engine reports it: session id, target, value before the
  animation, \<^verbatim>\<open>finished\<close>, \<^verbatim>\<open>current\<close>. \<open>feed\<close> delivers a list of them to
  \<open>onAnimationEnd\<close>, first to last.
\<close>

type_synonym completion = "string \<times> ANIMATION_VALUE \<times> real \<times> bool option \<times> real option"

fun feed :: "config \<Rightarrow> completion list \<Rightarrow> state \<Rightarrow> state" where
  "feed cfg [] s = s"
| "feed cfg ((iid, v, lastV, fin, cur) # es) s =
     feed cfg es (onAnimationEnd cfg iid v lastV fin cur s)"

text \<open>The entry that a completion records, and the record built from a list of them.\<close>

definition entry_of :: "ANIMATION_VALUE \<times> real \<times> bool option \<times> real option \<Rightarrow> ANIMATION_VALUE \<times> end_value" where
  "entry_of e = (case e of (v, lastV, fin, cur) \<Rightarrow>
     (v, \<lparr> lastValue = lastV, finished = fin, current = cur \<rparr>))"

section \<open>Gesture and transform engine (\<^verbatim>\<open>useGestures\<close>)\<close>

subsection \<open>reset, moveIntoView, zoom\<close>

text \<open>\<open>reset\<close>: the statements of the source in their order.\<close>

definition reset :: "state \<Rightarrow> state" where
  "reset s0 =
    (let iid = getInteractionId s0;
         s1 = s0\<lparr> savedScale := 1 \<rparr>;
         lastScaleValue = scale s1;
         s2 = assign_animation SCALE
                (WithTiming 1 (Some (ResetEnd iid SCALE lastScaleValue))) s1;
         s3 = s2\<lparr> initialFocal_x := 0 \<rparr>;
         s4 = s3\<lparr> initialFocal_y := 0 \<rparr>;
         s5 = s4\<lparr> savedFocal_x := 0 \<rparr>;
         s6 = s5\<lparr> savedFocal_y := 0 \<rparr>;
         lastFocalXValue = focal_x s6;
         s7 = assign_animation FOCAL_X
                (WithTiming 0 (Some (ResetEnd iid FOCAL_X lastFocalXValue))) s6;
         lastFocalYValue = focal_y s7;
         s8 = assign_animation FOCAL_Y
                (WithTiming 0 (Some (ResetEnd iid FOCAL_Y lastFocalYValue))) s7;
         s9 = s8\<lparr> savedTranslate_x := 0 \<rparr>;
         s10 = s9\<lparr> savedTranslate_y := 0 \<rparr>;
         lastTranslateXValue = translate_x s10;
         s11 = assign_animation TRANSLATE_X
                (WithTiming 0 (Some (ResetEnd iid TRANSLATE_X lastTranslateXValue))) s10;
         lastTranslateYValue = translate_y s11;
         s12 = assign_animation TRANSLATE_Y
                (WithTiming 0 (Some (ResetEnd iid TRANSLATE_Y lastTranslateYValue))) s11
     in s12)"

definition moveIntoView :: "config \<Rightarrow> state \<Rightarrow> state" where
  "moveIntoView cfg s =
    (if scale s > 1 then
       (let rightLimit = limits_right (width cfg) (scale s);
            leftLimit = - rightLimit;
            bottomLimit = limits_bottom (height cfg) (scale s);
            topLimit = - bottomLimit;
            totalTranslateX = sum_values [translate_x s, focal_x s];
            totalTranslateY = sum_values [translate_y s, focal_y s];
            s1 = (if totalTranslateX > rightLimit then
                    assign_animation FOCAL_X (WithTiming 0 None)
                      (assign_animation TRANSLATE_X (WithTiming rightLimit None) s)
                  else if totalTranslateX < leftLimit then
                    assign_animation FOCAL_X (WithTiming 0 None)
                      (assign_animation TRANSLATE_X (WithTiming leftLimit None) s)
                  else s);
            s2 = (if totalTranslateY > bottomLimit then
                    assign_animation FOCAL_Y (WithTiming 0 None)
                      (assign_animation TRANSLATE_Y (WithTiming bottomLimit None) s1)
                  else if totalTranslateY < topLimit then
                    assign_animation FOCAL_Y (WithTiming 0 None)
                      (assign_animation TRANSLATE_Y (WithTiming topLimit None) s1)
                  else s1)
        in s2)
     else reset s)"

definition zoom :: "config \<Rightarrow> zoom_event \<Rightarrow> state \<Rightarrow> state" where
  "zoom cfg event s =
    (if zoom_scale event > 1 then
       (let s1 = runOnJS (Call_onProgrammaticZoom ZOOM_IN) s;
            s2 = assign_animation SCALE (WithTiming (zoom_scale event) None) s1;
            s3 = assign_animation FOCAL_X
                   (WithTiming ((center_x cfg - zoom_x event) * (zoom_scale event - 1)) None) s2;
            s4 = assign_animation FOCAL_Y
                   (WithTiming ((center_y cfg - zoom_y event) * (zoom_scale event - 1)) None) s3
        in s4)
     else reset (runOnJS (Call_onProgrammaticZoom ZOOM_OUT) s))"

subsection \<open>Pinch\<close>

definition pinchGesture_onUpdate :: "config \<Rightarrow> pinch_event \<Rightarrow> state \<Rightarrow> state" where
  "pinchGesture_onUpdate cfg event s =
    (let s1 = s\<lparr> scale := clamp (savedScale s * pinch_scale event) (minScale cfg) (maxScale cfg) \<rparr>;
         s2 = s1\<lparr> focal_x := savedFocal_x s1
                 + (center_x cfg - initialFocal_x s1) * (scale s1 - savedScale s1) \<rparr>;
         s3 = s2\<lparr> focal_y := savedFocal_y s2
                 + (center_y cfg - initialFocal_y s2) * (scale s2 - savedScale s2) \<rparr>
     in s3)"

subsection \<open>Pan: the two recognizers\<close>

definition panWhilePinchingGesture_onStart :: "pan_event \<Rightarrow> state \<Rightarrow> state" where
  "panWhilePinchingGesture_onStart event s =
    (let s1 = runOnJS (Call_onPanStarted event) s;
         s2 = s1\<lparr> savedTranslate_x := translate_x s1 \<rparr>;
         s3 = s2\<lparr> savedTranslate_y := translate_y s2 \<rparr>
     in s3)"

definition panWhilePinchingGesture_onUpdate :: "pan_event \<Rightarrow> state \<Rightarrow> state" where
  "panWhilePinchingGesture_onUpdate event s =
    (let s1 = s\<lparr> translate_x := savedTranslate_x s + translationX event \<rparr>;
         s2 = s1\<lparr> translate_y := savedTranslate_y s1 + translationY event \<rparr>
     in s2)"

definition panWhilePinchingGesture_onEnd :: "config \<Rightarrow> pan_event \<Rightarrow> bool \<Rightarrow> state \<Rightarrow> state" where
  "panWhilePinchingGesture_onEnd cfg event success s =
    (let rightLimit = limits_right (width cfg) (scale s);
         leftLimit = - rightLimit;
         bottomLimit = limits_bottom (height cfg) (scale s);
         topLimit = - bottomLimit
     in if scale s > 1 \<and> isDoubleTapEnabled cfg then
          (let s1 = assign_animation TRANSLATE_X
                      (WithDecay \<lparr> velocity = velocityX event, velocityFactor = 6 / 10,
                           rubberBandEffect = True, rubberBandFactor = 9 / 10,
                           clamp_lo = leftLimit - focal_x s, clamp_hi = rightLimit - focal_x s \<rparr>
                         (DecayEndX event success)) s;
               s2 = assign_animation TRANSLATE_Y
                      (WithDecay \<lparr> velocity = velocityY event, velocityFactor = 6 / 10,
                           rubberBandEffect = True, rubberBandFactor = 9 / 10,
                           clamp_lo = topLimit - focal_y s1, clamp_hi = bottomLimit - focal_y s1 \<rparr>
                         (DecayEndY event success)) s1
           in s2)
        else runOnJS (Call_onPanEnded event success) s)"

text \<open>\<open>onTouchesDown\<close> of the pan-only recognizer: the result says whether the handler
  calls \<^verbatim>\<open>manager.fail()\<close>; it writes nothing.\<close>

definition panOnlyGesture_onTouchesDown :: "state \<Rightarrow> bool" where
  "panOnlyGesture_onTouchesDown s = (scale s \<le> 1)"

definition panOnlyGesture_onStart :: "pan_event \<Rightarrow> state \<Rightarrow> state" where
  "panOnlyGesture_onStart event s =
    (let s1 = runOnJS (Call_onPanStarted event) s;
         s2 = s1\<lparr> savedTranslate_x := translate_x s1 \<rparr>;
         s3 = s2\<lparr> savedTranslate_y := translate_y s2 \<rparr>
     in s3)"

definition panOnlyGesture_onUpdate :: "pan_event \<Rightarrow> state \<Rightarrow> state" where
  "panOnlyGesture_onUpdate event s =
    (let s1 = s\<lparr> translate_x := savedTranslate_x s + translationX event \<rparr>;
         s2 = s1\<lparr> translate_y := savedTranslate_y s1 + translationY event \<rparr>
     in s2)"

definition panOnlyGesture_onEnd :: "config \<Rightarrow> pan_event \<Rightarrow> bool \<Rightarrow> state \<Rightarrow> state" where
  "panOnlyGesture_onEnd cfg event success s =
    (let rightLimit = limits_right (width cfg) (scale s);
         leftLimit = - rightLimit;
         bottomLimit = limits_bottom (height cfg) (scale s);
         topLimit = - bottomLimit
     in if scale s > 1 \<and> isDoubleTapEnabled cfg then
          (let s1 = assign_animation TRANSLATE_X
                      (WithDecay \<lparr> velocity = velocityX event, velocityFactor = 6 / 10,
                           rubberBandEffect = True, rubberBandFactor = 9 / 10,
                           clamp_lo = leftLimit - focal_x s, clamp_hi = rightLimit - focal_x s \<rparr>
                         (DecayEndX event success)) s;
               s2 = assign_animation TRANSLATE_Y
                      (WithDecay \<lparr> velocity = velocityY event, velocityFactor = 6 / 10,
                           rubberBandEffect = True, rubberBandFactor = 9 / 10,
                           clamp_lo = topLimit - focal_y s1, clamp_hi = bottomLimit - focal_y s1 \<rparr>
                         (DecayEndY event success)) s1
           in s2)
        else runOnJS (Call_onPanEnded event success) s)"

subsection \<open>Running a completion callback\<close>

text \<open>
  The bodies of the three kinds of closure, applied to the arguments
  \<^verbatim>\<open>(finished, current)\<close> that the animation engine passes.
\<close>

fun run_callback :: "config \<Rightarrow> callback \<Rightarrow> bool option \<Rightarrow> real option \<Rightarrow> state \<Rightarrow> state" where
  "run_callback cfg (ResetEnd iid v lastV) fin cur s = onAnimationEnd cfg iid v lastV fin cur s"
| "run_callback cfg (DecayEndX event success) fin cur s =
     (if velocityX event \<ge> velocityY event then runOnJS (Call_onPanEnded event success) s else s)"
| "run_callback cfg (DecayEndY event success) fin cur s =
     (if velocityY event > velocityX event then runOnJS (Call_onPanEnded event success) s else s)"

subsection \<open>The animation engine, as far as the engine relies on it\<close>

definition cell_value :: "ANIMATION_VALUE \<Rightarrow> state \<Rightarrow> real" where
  "cell_value c s = (case c of SCALE \<Rightarrow> scale s | FOCAL_X \<Rightarrow> focal_x s | FOCAL_Y \<Rightarrow> focal_y s
     | TRANSLATE_X \<Rightarrow> translate_x s | TRANSLATE_Y \<Rightarrow> translate_y s)"

definition set_cell :: "ANIMATION_VALUE \<Rightarrow> real \<Rightarrow> state \<Rightarrow> state" where
  "set_cell c v s = (case c of SCALE \<Rightarrow> s\<lparr> scale := v \<rparr> | FOCAL_X \<Rightarrow> s\<lparr> focal_x := v \<rparr>
     | FOCAL_Y \<Rightarrow> s\<lparr> focal_y := v \<rparr> | TRANSLATE_X \<Rightarrow> s\<lparr> translate_x := v \<rparr>
     | TRANSLATE_Y \<Rightarrow> s\<lparr> translate_y := v \<rparr>)"

text \<open>
  Modelled from the spec: the timing driver of the animation engine, an external library
  (section 6: ``a timing-curve driver taking target value + easing + completion
  callback''; glossary, ``settle'': the animation has reached its target). A timing
  animation that runs to its end without being interrupted leaves its cell at the target
  value and calls its completion callback, if it has one, with \<^verbatim>\<open>finished = true\<close>;
  \<open>cur\<close> is whatever the engine passes as \<^verbatim>\<open>current\<close>.
\<close>

fun timing_settles ::
  "config \<Rightarrow> ANIMATION_VALUE \<times> real \<times> callback option \<times> real option \<Rightarrow> state \<Rightarrow> state"
where
  "timing_settles cfg (c, toValue, None, cur) s = set_cell c toValue s"
| "timing_settles cfg (c, toValue, Some cb, cur) s =
     run_callback cfg cb (Some True) cur (set_cell c toValue s)"

fun settle_all ::
  "config \<Rightarrow> (ANIMATION_VALUE \<times> real \<times> callback option \<times> real option) list \<Rightarrow> state \<Rightarrow> state"
where
  "settle_all cfg [] s = s"
| "settle_all cfg (a # as) s = settle_all cfg as (timing_settles cfg a s)"

text \<open>The animation that an engine-side completion \<open>(cell, target, callback, current)\<close>
  belongs to, as it appears in \<open>started\<close>.\<close>

definition started_entry ::
  "ANIMATION_VALUE \<times> real \<times> callback option \<times> real option \<Rightarrow> ANIMATION_VALUE \<times> animation"
where
  "started_entry a = (case a of (c, toValue, cb, cur) \<Rightarrow> (c, WithTiming toValue cb))"

text \<open>The animations that a handler \<open>f\<close> starts in state \<open>s\<close>.\<close>

definition new_animations :: "(state \<Rightarrow> state) \<Rightarrow> state \<Rightarrow> (ANIMATION_VALUE \<times> animation) list" where
  "new_animations f s = drop (length (started s)) (started (f s))"

definition new_js_calls :: "(state \<Rightarrow> state) \<Rightarrow> state \<Rightarrow> js_call list" where
  "new_js_calls f s = drop (length (js s)) (js (f s))"

subsection \<open>The gesture recognition engine, as far as the pan-only recognizer relies on it\<close>

text \<open>
  The states of a recognizer (an active one remembers the last event it delivered), and
  what the gesture-recognition engine can report to a pan recognizer during one touch
  sequence: a touch went down, the recognizer activated, the touch moved, the touch was
  released (with the success flag).
\<close>

datatype recognizer = UNDETERMINED | BEGAN | ACTIVE pan_event | FAILED | ENDED

datatype pan_signal =
    TouchesDown
  | Activated pan_event
  | Moved pan_event
  | Released pan_event bool

text \<open>
  Modelled from the spec: the life cycle of a recognizer in the gesture-recognition
  engine, an external library (section 6: recognizers with start/update/end callbacks and
  ``touch-down interception (to conditionally fail a recognizer before it activates)'').
  A recognizer that has not activated and is failed in its touch-down handler is over for
  this touch sequence; \<^verbatim>\<open>onStart\<close> is delivered on activation, \<^verbatim>\<open>onUpdate\<close> and
  \<^verbatim>\<open>onEnd\<close> only to a recognizer that has activated. The handlers themselves are those
  of the source.
\<close>

fun panOnly_deliver :: "config \<Rightarrow> recognizer \<times> state \<Rightarrow> pan_signal \<Rightarrow> recognizer \<times> state" where
  "panOnly_deliver cfg (UNDETERMINED, s) TouchesDown =
     (if panOnlyGesture_onTouchesDown s then (FAILED, s) else (BEGAN, s))"
| "panOnly_deliver cfg (BEGAN, s) TouchesDown =
     (if panOnlyGesture_onTouchesDown s then (FAILED, s) else (BEGAN, s))"
| "panOnly_deliver cfg (ACTIVE prev, s) TouchesDown =
     (if panOnlyGesture_onTouchesDown s then (FAILED, panOnlyGesture_onEnd cfg prev False s)
      else (ACTIVE prev, s))"
| "panOnly_deliver cfg (BEGAN, s) (Activated event) = (ACTIVE event, panOnlyGesture_onStart event s)"
| "panOnly_deliver cfg (ACTIVE prev, s) (Moved event) = (ACTIVE event, panOnlyGesture_onUpdate event s)"
| "panOnly_deliver cfg (ACTIVE prev, s) (Released event success) =
     ((if success then ENDED else FAILED), panOnlyGesture_onEnd cfg event success s)"
| "panOnly_deliver cfg (BEGAN, s) (Released event success) =
     ((if success then ENDED else FAILED), s)"
| "panOnly_deliver cfg (g, s) signal = (g, s)"

definition panOnly_sequence :: "config \<Rightarrow> pan_signal list \<Rightarrow> state \<Rightarrow> recognizer \<times> state" where
  "panOnly_sequence cfg signals s = foldl (panOnly_deliver cfg) (UNDETERMINED, s) signals"

section \<open>Auxiliary notions for the statements\<close>

text \<open>The props as \<^verbatim>\<open>useGestures\<close> defaults them, in a container that has not been
  laid out yet (size and centre 0, as \<^verbatim>\<open>useZoomableLayout\<close> starts).\<close>

definition default_config :: config where
  "default_config = \<lparr> width = 0, height = 0, center_x = 0, center_y = 0,
     minScale = 1, maxScale = 5, doubleTapScale = 3,
     isDoubleTapEnabled = False, onResetAnimationEnd = False \<rparr>"

text \<open>The record that the aggregator holds for a session (\<^verbatim>\<open>endValues.value[id] || {}\<close>).\<close>

definition stored :: "state \<Rightarrow> string \<Rightarrow> PartialEndValues" where
  "stored s iid = (case endValues s iid of Some r \<Rightarrow> r | None \<Rightarrow> Map.empty)"

text \<open>The record after the given completions have been recorded in order: a later
  completion of a target replaces an earlier one.\<close>

definition record_of :: "(ANIMATION_VALUE \<times> real \<times> bool option \<times> real option) list \<Rightarrow> PartialEndValues" where
  "record_of evs = map_of (rev (map entry_of evs))"

text \<open>Every entry of a record has a truthy \<^verbatim>\<open>finished\<close>.\<close>

definition all_finished :: "PartialEndValues \<Rightarrow> bool" where
  "all_finished r = list_all (\<lambda>item. truthy (finished item)) (Object_values r)"

text \<open>The animations of one axis.\<close>

definition on_x_axis :: "ANIMATION_VALUE \<times> animation \<Rightarrow> bool" where
  "on_x_axis a = (fst a = TRANSLATE_X \<or> fst a = FOCAL_X)"

definition on_y_axis :: "ANIMATION_VALUE \<times> animation \<Rightarrow> bool" where
  "on_y_axis a = (fst a = TRANSLATE_Y \<or> fst a = FOCAL_Y)"

section \<open>Limit calculator: properties\<close>

text \<open>
  C8. For all widths, heights and scales: right = w*(s-1)/2, bottom = h*(s-1)/2,
  left = -right and top = -bottom; the symmetry holds for every input, whatever the
  sign of s - 1.
\<close>

theorem limits_antisymmetric:
  "limits_right w sc = w * (sc - 1) / 2
   \<and> limits_bottom h sc = h * (sc - 1) / 2
   \<and> limits_left w sc = - limits_right w sc
   \<and> limits_top h sc = - limits_bottom h sc"
  by (simp add: limits_right_def limits_left_def limits_bottom_def limits_top_def)

section \<open>Pan gesture counter: properties\<close>

lemma pan_run_snoc: "pan_run (ops @ [p]) c = pan_step (pan_run ops c) p"
  by (simp add: pan_run_def)

lemma pan_run_nonneg: "0 \<le> c \<Longrightarrow> 0 \<le> pan_run ops c"
proof (induction ops rule: rev_induct)
  case Nil
  then show ?case by (simp add: pan_run_def)
next
  case (snoc p ops)
  then show ?case
    by (cases p) (simp_all add: pan_run_snoc startPan_def endPan_def)
qed

lemma pan_run_le_starts: "pan_run ops c \<le> c + int (count_list ops StartPan)"
proof (induction ops rule: rev_induct)
  case Nil
  then show ?case by (simp add: pan_run_def)
next
  case (snoc p ops)
  then show ?case
    by (cases p) (simp_all add: pan_run_snoc startPan_def endPan_def)
qed

lemma endPan_replicate: "0 \<le> c \<Longrightarrow> pan_run (replicate m EndPan) c = max 0 (c - int m)"
proof (induction m arbitrary: c)
  case 0
  then show ?case by (simp add: pan_run_def)
next
  case (Suc m)
  have "pan_run (replicate (Suc m) EndPan) c = pan_run (replicate m EndPan) (endPan c)"
    by (simp add: pan_run_def)
  also have "\<dots> = max 0 (endPan c - int m)"
    using Suc.prems by (intro Suc.IH) (simp add: endPan_def)
  also have "\<dots> = max 0 (c - int (Suc m))"
    using Suc.prems by (auto simp: endPan_def max_def)
  finally show ?case .
qed

lemma pan_run_append: "pan_run (xs @ ys) c = pan_run ys (pan_run xs c)"
  by (simp add: pan_run_def)

text \<open>
  C9. Starting from 0 the counter is never negative, whatever sequence of
  \<^verbatim>\<open>startPan\<close>/\<^verbatim>\<open>endPan\<close> calls is made; \<^verbatim>\<open>startPan\<close> adds one; \<^verbatim>\<open>endPan\<close>
  subtracts one only from a positive counter and leaves 0 at 0; once \<^verbatim>\<open>endPan\<close> has
  been called at least as often as \<^verbatim>\<open>startPan\<close> was called before, the counter is 0;
  \<^verbatim>\<open>isPanning\<close> is true exactly when the counter is positive.
\<close>

theorem panGestureCount_never_negative:
  "0 \<le> pan_run ops panGestureCount_init
   \<and> startPan c = c + 1
   \<and> (0 < c \<longrightarrow> endPan c = c - 1)
   \<and> (\<not> 0 < c \<longrightarrow> endPan c = c)
   \<and> endPan 0 = 0
   \<and> (count_list ops StartPan \<le> m \<longrightarrow>
        pan_run (ops @ replicate m EndPan) panGestureCount_init = 0)
   \<and> (isPanning c \<longleftrightarrow> 0 < c)"
proof -
  have nonneg: "0 \<le> pan_run ops panGestureCount_init"
    by (rule pan_run_nonneg) (simp add: panGestureCount_init_def)
  have surplus: "pan_run (ops @ replicate m EndPan) panGestureCount_init = 0"
    if "count_list ops StartPan \<le> m"
  proof -
    have "pan_run ops panGestureCount_init \<le> int m"
      using pan_run_le_starts [of ops panGestureCount_init] that
      by (simp add: panGestureCount_init_def)
    then show ?thesis
      using nonneg by (simp add: pan_run_append endPan_replicate)
  qed
  show ?thesis
    using nonneg surplus by (simp add: startPan_def endPan_def isPanning_def)
qed

theorem panGestureCount_never_negative_witness:
  "pan_run ([StartPan, EndPan, EndPan, StartPan] @ replicate 3 EndPan) panGestureCount_init = 0
   \<and> endPan (startPan 0) = 0 \<and> isPanning (startPan 0)"
proof -
  have "count_list [StartPan, EndPan, EndPan, StartPan] StartPan \<le> 3"
    by simp
  then show ?thesis
    using panGestureCount_never_negative [of "[StartPan, EndPan, EndPan, StartPan]" 1 3]
          panGestureCount_never_negative [of "[]" 0 0]
    by (simp add: startPan_def)
qed

section \<open>Animation completion aggregator: properties\<close>

lemma UNIV_ANIMATION_VALUE: "UNIV = {SCALE, FOCAL_X, FOCAL_Y, TRANSLATE_X, TRANSLATE_Y}"
  by (auto intro: ANIMATION_VALUE.exhaust)

lemma set_ANIMATION_VALUES: "set ANIMATION_VALUES = UNIV"
  using UNIV_ANIMATION_VALUE by (simp add: ANIMATION_VALUES_def)

lemma card_ANIMATION_VALUE: "card (UNIV :: ANIMATION_VALUE set) = 5"
  by (simp add: UNIV_ANIMATION_VALUE)

lemma isAnimationComplete_iff: "isAnimationComplete r \<longleftrightarrow> dom r = UNIV"
  by (auto simp: isAnimationComplete_def list_all_iff set_ANIMATION_VALUES dom_def)

lemma set_Object_values: "set (Object_values r) = ran r"
  by (force simp: Object_values_def List.map_filter_def set_ANIMATION_VALUES ran_def image_iff)

lemma completed_iff:
  "(\<not> list_ex (\<lambda>item. \<not> truthy (finished item)) (Object_values r)) \<longleftrightarrow> all_finished r"
  by (simp add: list_ex_iff list_all_iff all_finished_def)

lemma all_finished_iff:
  "all_finished r \<longleftrightarrow> (\<forall>v e. r v = Some e \<longrightarrow> finished e = Some True)"
  by (auto simp: all_finished_def list_all_iff set_Object_values ran_def truthy_def)

lemma onAnimationEnd_partial:
  assumes "onResetAnimationEnd cfg" and "insert v (dom (stored s iid)) \<noteq> UNIV"
  shows "onAnimationEnd cfg iid v lastV fin cur s =
     s\<lparr> endValues := (endValues s)(iid \<mapsto>
          (stored s iid)(v \<mapsto> \<lparr> lastValue = lastV, finished = fin, current = cur \<rparr>)) \<rparr>"
  using assms by (simp add: onAnimationEnd_def stored_def isAnimationComplete_iff Let_def)

lemma onAnimationEnd_complete:
  assumes "onResetAnimationEnd cfg" and "insert v (dom (stored s iid)) = UNIV"
  shows "onAnimationEnd cfg iid v lastV fin cur s =
     s\<lparr> js := js s @ [Call_onResetAnimationEnd
            (all_finished ((stored s iid)(v \<mapsto> \<lparr> lastValue = lastV, finished = fin, current = cur \<rparr>)))
            ((stored s iid)(v \<mapsto> \<lparr> lastValue = lastV, finished = fin, current = cur \<rparr>))],
        endValues := (endValues s)(iid := None) \<rparr>"
  using assms
  by (simp add: onAnimationEnd_def stored_def isAnimationComplete_iff Let_def completed_iff
      runOnJS_def)

lemma onAnimationEnd_absent:
  "\<not> onResetAnimationEnd cfg \<Longrightarrow> onAnimationEnd cfg iid v lastV fin cur s = s"
  by (simp add: onAnimationEnd_def)

lemma feed_append: "feed cfg (xs @ ys) s = feed cfg ys (feed cfg xs s)"
  by (induction xs arbitrary: s) auto

lemma feed_absent: "\<not> onResetAnimationEnd cfg \<Longrightarrow> feed cfg evs s = s"
  by (induction evs arbitrary: s) (auto simp: onAnimationEnd_absent)

lemma record_of_Cons:
  "r ++ record_of ((v, lastV, fin, cur) # evs) =
   r(v \<mapsto> \<lparr> lastValue = lastV, finished = fin, current = cur \<rparr>) ++ record_of evs"
  by (simp add: record_of_def entry_of_def map_add_assoc[symmetric] map_add_upd_left)

lemma record_of_snoc:
  "record_of (pre @ [(v, lastV, fin, cur)]) =
   (record_of pre)(v \<mapsto> \<lparr> lastValue = lastV, finished = fin, current = cur \<rparr>)"
  by (simp add: record_of_def entry_of_def)

lemma record_of_Nil: "record_of [] = Map.empty"
  by (simp add: record_of_def)

lemma dom_record_of: "dom (record_of evs) = fst ` set evs"
  by (force simp: record_of_def dom_map_of_conv_image_fst entry_of_def image_iff split: prod.splits)

lemma record_of_eq_Some:
  assumes "distinct (map fst evs)"
  shows "record_of evs v = Some e \<longleftrightarrow> (v, e) \<in> entry_of ` set evs"
proof -
  have "fst \<circ> entry_of = fst"
    by (auto simp: fun_eq_iff entry_of_def)
  then have "map fst (rev (map entry_of evs)) = rev (map fst evs)"
    by (simp add: rev_map)
  then have "distinct (map fst (rev (map entry_of evs)))"
    using assms by simp
  then show ?thesis
    unfolding record_of_def by (simp add: map_of_eq_Some_iff)
qed

lemma all_finished_record_of:
  assumes "distinct (map fst evs)"
  shows "all_finished (record_of evs) \<longleftrightarrow> (\<forall>(v, lastV, fin, cur)\<in>set evs. fin = Some True)"
  unfolding all_finished_iff record_of_eq_Some [OF assms]
  by (fastforce simp: entry_of_def image_iff split: prod.splits)

lemma feed_partial:
  assumes "onResetAnimationEnd cfg"
  shows "dom (stored s iid) \<union> fst ` set evs \<noteq> UNIV \<Longrightarrow>
    feed cfg (map (Pair iid) evs) s =
      s\<lparr> endValues := (endValues s)(iid :=
           (if evs = [] then endValues s iid else Some (stored s iid ++ record_of evs))) \<rparr>"
proof (induction evs arbitrary: s)
  case Nil
  then show ?case by simp
next
  case (Cons e evs)
  obtain v lastV fin cur where e: "e = (v, lastV, fin, cur)"
    by (cases e) auto
  let ?r = "(stored s iid)(v \<mapsto> \<lparr> lastValue = lastV, finished = fin, current = cur \<rparr>)"
  let ?s = "s\<lparr> endValues := (endValues s)(iid \<mapsto> ?r) \<rparr>"
  have notall: "insert v (dom (stored s iid)) \<noteq> UNIV"
    using Cons.prems e by auto
  have step: "onAnimationEnd cfg iid v lastV fin cur s = ?s"
    using assms notall by (rule onAnimationEnd_partial)
  have st: "stored ?s iid = ?r"
    by (simp add: stored_def)
  have "dom (stored ?s iid) \<union> fst ` set evs \<noteq> UNIV"
    using Cons.prems e by (simp add: st) 
  from Cons.IH [OF this] show ?case
    unfolding e by (simp add: step st record_of_Cons del: fun_upd_apply) (simp add: record_of_def)
qed

lemma feed_completes:
  assumes cb: "onResetAnimationEnd cfg"
    and fresh: "endValues s iid = None"
    and dist: "distinct (map fst (pre @ [e]))"
    and cover: "fst ` set (pre @ [e]) = UNIV"
  shows "feed cfg (map (Pair iid) (pre @ [e])) s =
    s\<lparr> js := js s @ [Call_onResetAnimationEnd (all_finished (record_of (pre @ [e])))
                       (record_of (pre @ [e]))],
       endValues := (endValues s)(iid := None) \<rparr>"
proof -
  obtain v lastV fin cur where e: "e = (v, lastV, fin, cur)"
    by (cases e) auto
  let ?s1 = "feed cfg (map (Pair iid) pre) s"
  have st0: "stored s iid = Map.empty"
    using fresh by (simp add: stored_def)
  have "v \<notin> fst ` set pre"
    using dist e by auto
  then have "dom (stored s iid) \<union> fst ` set pre \<noteq> UNIV"
    by (auto simp: st0)
  from feed_partial [OF cb this]
  have s1: "?s1 = s\<lparr> endValues := (endValues s)(iid :=
           (if pre = [] then endValues s iid else Some (stored s iid ++ record_of pre))) \<rparr>" .
  have st1: "stored ?s1 iid = record_of pre"
    by (simp add: s1 stored_def fresh record_of_Nil)
  have "insert v (dom (stored ?s1 iid)) = UNIV"
    using cover e by (simp add: st1 dom_record_of)
  from onAnimationEnd_complete [OF cb this, of lastV fin cur]
  have "onAnimationEnd cfg iid v lastV fin cur ?s1 =
     ?s1\<lparr> js := js ?s1 @ [Call_onResetAnimationEnd (all_finished (record_of (pre @ [e])))
                       (record_of (pre @ [e]))],
       endValues := (endValues ?s1)(iid := None) \<rparr>"
    by (simp only: st1 e record_of_snoc)
  then show ?thesis
    by (simp add: feed_append e) (simp add: s1)
qed

text \<open>
  C1. With a reset-completion callback supplied and no record yet for the session, the
  completions of the five targets, delivered in any order (a list of completions whose
  targets are distinct and cover all five): no call of the callback is issued after any
  proper prefix; after the fifth exactly one call is issued; its first argument is true
  exactly when every completion had \<^verbatim>\<open>finished = true\<close>; its second argument is the
  record of all five; and the session has no record afterwards (other sessions keep
  theirs).
\<close>

theorem aggregator_fires_once_after_fifth:
  assumes cb: "onResetAnimationEnd cfg"
    and fresh: "endValues s iid = None"
    and dist: "distinct (map fst evs)"
    and cover: "fst ` set evs = UNIV"
  shows "length evs = 5
    \<and> (\<forall>n<length evs. js (feed cfg (map (Pair iid) (take n evs)) s) = js s)
    \<and> js (feed cfg (map (Pair iid) evs) s) =
        js s @ [Call_onResetAnimationEnd (\<forall>(v, lastV, fin, cur)\<in>set evs. fin = Some True)
                  (record_of evs)]
    \<and> (\<forall>v\<in>fst ` set evs. record_of evs v \<noteq> None)
    \<and> endValues (feed cfg (map (Pair iid) evs) s) iid = None
    \<and> (\<forall>other. other \<noteq> iid \<longrightarrow>
          endValues (feed cfg (map (Pair iid) evs) s) other = endValues s other)"
proof -
  have len: "length evs = 5"
  proof -
    have "length (map fst evs) = card (set (map fst evs))"
      using dist by (simp only: distinct_card)
    also have "\<dots> = 5"
      using cover by (simp add: card_ANIMATION_VALUE)
    finally show ?thesis by simp
  qed
  then have ne: "evs \<noteq> []" by auto
  then obtain pre e where evs: "evs = pre @ [e]"
    by (cases evs rule: rev_cases) auto
  have st0: "stored s iid = Map.empty"
    using fresh by (simp add: stored_def)
  have before: "js (feed cfg (map (Pair iid) (take n evs)) s) = js s" if "n < length evs" for n
  proof -
    have tk: "take n evs = take n pre"
      using that by (simp add: evs)
    have "fst e \<notin> fst ` set pre"
      using dist by (auto simp: evs)
    moreover have "set (take n pre) \<subseteq> set pre"
      by (rule set_take_subset)
    ultimately have "fst e \<notin> fst ` set (take n evs)"
      unfolding tk by auto
    then have "dom (stored s iid) \<union> fst ` set (take n evs) \<noteq> UNIV"
      by (auto simp: st0)
    from feed_partial [OF cb this] show ?thesis
      by simp
  qed
  have final: "feed cfg (map (Pair iid) evs) s =
      s\<lparr> js := js s @ [Call_onResetAnimationEnd (all_finished (record_of evs)) (record_of evs)],
         endValues := (endValues s)(iid := None) \<rparr>"
    using feed_completes [OF cb fresh] dist cover unfolding evs by blast
  have present: "\<forall>v\<in>fst ` set evs. record_of evs v \<noteq> None"
    using dom_record_of [of evs] by (auto simp: dom_def)
  show ?thesis
    using len before present
    by (simp add: final all_finished_record_of [OF dist])
qed

theorem aggregator_fires_once_after_fifth_witness:
  "js (feed (default_config\<lparr> onResetAnimationEnd := True \<rparr>)
        (map (Pair ''1700000000000'')
          [(TRANSLATE_Y, 12, Some True, None), (SCALE, 3, Some True, None),
           (FOCAL_Y, 7, Some True, None), (TRANSLATE_X, - 4, Some True, None),
           (FOCAL_X, 5, Some True, None)]) initial_state)
    = [Call_onResetAnimationEnd True
        (record_of [(TRANSLATE_Y, 12, Some True, None), (SCALE, 3, Some True, None),
           (FOCAL_Y, 7, Some True, None), (TRANSLATE_X, - 4, Some True, None),
           (FOCAL_X, 5, Some True, None)])]
   \<and> js (feed (default_config\<lparr> onResetAnimationEnd := True \<rparr>)
        (map (Pair ''1700000000000'')
          (take 4 [(TRANSLATE_Y, 12, Some True, None), (SCALE, 3, Some True, None),
           (FOCAL_Y, 7, Some True, None), (TRANSLATE_X, - 4, Some True, None),
           (FOCAL_X, 5, Some True, None)])) initial_state) = []"
proof -
  let ?cfg = "default_config\<lparr> onResetAnimationEnd := True \<rparr>"
  let ?evs = "[(TRANSLATE_Y, 12::real, Some True, None::real option), (SCALE, 3, Some True, None),
           (FOCAL_Y, 7, Some True, None), (TRANSLATE_X, - 4, Some True, None),
           (FOCAL_X, 5, Some True, None)]"
  have cb: "onResetAnimationEnd ?cfg"
    by simp
  have fresh: "endValues initial_state ''1700000000000'' = None"
    by (simp add: initial_state_def)
  have dist: "distinct (map fst ?evs)"
    by simp
  have cover: "fst ` set ?evs = UNIV"
    by (auto simp: UNIV_ANIMATION_VALUE)
  have j0: "js initial_state = []"
    by (simp add: initial_state_def)
  have fin: "(\<forall>(v, lastV, fin, cur)\<in>set ?evs. fin = Some True) = True"
    by simp
  note th = aggregator_fires_once_after_fifth [OF cb fresh dist cover]
  have a: "js (feed ?cfg (map (Pair ''1700000000000'') ?evs) initial_state) =
      [Call_onResetAnimationEnd True (record_of ?evs)]"
    using th unfolding j0 fin by (elim conjE) simp
  have "(4::nat) < length ?evs"
    by simp
  with th have b: "js (feed ?cfg (map (Pair ''1700000000000'') (take 4 ?evs)) initial_state) = []"
    unfolding j0 by blast
  show ?thesis
    using a b by (rule conjI)
qed

text \<open>
  C10. Without a reset-completion callback \<open>onAnimationEnd\<close> changes nothing, for every
  input: no record is created, updated or deleted and no call is issued; so, from the
  initial state, the record map stays empty whatever completions arrive.
\<close>

theorem aggregator_without_callback_is_noop:
  assumes "\<not> onResetAnimationEnd cfg"
  shows "onAnimationEnd cfg iid v lastV fin cur s = s
    \<and> feed cfg evs s = s
    \<and> endValues (feed cfg evs initial_state) = Map.empty
    \<and> js (feed cfg evs initial_state) = []"
  using assms by (simp add: onAnimationEnd_absent feed_absent initial_state_def)

theorem aggregator_without_callback_is_noop_witness:
  "\<not> onResetAnimationEnd default_config
   \<and> onAnimationEnd default_config ''1700000000000'' SCALE 3 (Some True) None initial_state
       = initial_state"
  using aggregator_without_callback_is_noop [of default_config "''1700000000000''" SCALE 3 "Some True"
      None initial_state "[]"]
  by (simp add: default_config_def)

section \<open>Gesture and transform engine: properties\<close>

text \<open>
  C2. A pinch update sets the scale to the clamped product of saved scale and event
  scale, that is to \<^verbatim>\<open>Math.min(Math.max(minScale, product), maxScale)\<close>: the product
  itself when it lies between the bounds, \<open>maxScale\<close> when the product is at or above it,
  \<open>minScale\<close> when the product is at or below it (bounds in order), and in any case a
  value between the bounds when they are in order. Each focal coordinate is set to the
  saved focal plus (centre minus initial focal) times (new, clamped scale minus saved
  scale), so a saturated scale gives the focal of the bound. With saved scale 1, saved
  focal 0 and an event scale inside the clamp range the focal is (centre minus initial
  focal) times (event scale minus 1) on each axis.
\<close>

theorem pinch_update_reanchors:
  "scale (pinchGesture_onUpdate cfg ev s) =
      clamp (savedScale s * pinch_scale ev) (minScale cfg) (maxScale cfg)
   \<and> scale (pinchGesture_onUpdate cfg ev s) =
      min (max (minScale cfg) (savedScale s * pinch_scale ev)) (maxScale cfg)
   \<and> (minScale cfg \<le> maxScale cfg \<longrightarrow>
        minScale cfg \<le> scale (pinchGesture_onUpdate cfg ev s)
        \<and> scale (pinchGesture_onUpdate cfg ev s) \<le> maxScale cfg)
   \<and> (minScale cfg \<le> savedScale s * pinch_scale ev
        \<and> savedScale s * pinch_scale ev \<le> maxScale cfg \<longrightarrow>
        scale (pinchGesture_onUpdate cfg ev s) = savedScale s * pinch_scale ev)
   \<and> (maxScale cfg \<le> savedScale s * pinch_scale ev \<longrightarrow>
        scale (pinchGesture_onUpdate cfg ev s) = maxScale cfg
        \<and> focal_x (pinchGesture_onUpdate cfg ev s) =
            savedFocal_x s + (center_x cfg - initialFocal_x s) * (maxScale cfg - savedScale s)
        \<and> focal_y (pinchGesture_onUpdate cfg ev s) =
            savedFocal_y s + (center_y cfg - initialFocal_y s) * (maxScale cfg - savedScale s))
   \<and> (savedScale s * pinch_scale ev \<le> minScale cfg \<and> minScale cfg \<le> maxScale cfg \<longrightarrow>
        scale (pinchGesture_onUpdate cfg ev s) = minScale cfg
        \<and> focal_x (pinchGesture_onUpdate cfg ev s) =
            savedFocal_x s + (center_x cfg - initialFocal_x s) * (minScale cfg - savedScale s)
        \<and> focal_y (pinchGesture_onUpdate cfg ev s) =
            savedFocal_y s + (center_y cfg - initialFocal_y s) * (minScale cfg - savedScale s))
   \<and> focal_x (pinchGesture_onUpdate cfg ev s) =
      savedFocal_x s + (center_x cfg - initialFocal_x s)
        * (scale (pinchGesture_onUpdate cfg ev s) - savedScale s)
   \<and> focal_y (pinchGesture_onUpdate cfg ev s) =
      savedFocal_y s + (center_y cfg - initialFocal_y s)
        * (scale (pinchGesture_onUpdate cfg ev s) - savedScale s)
   \<and> (savedScale s = 1 \<and> savedFocal_x s = 0 \<and> savedFocal_y s = 0
        \<and> minScale cfg \<le> pinch_scale ev \<and> pinch_scale ev \<le> maxScale cfg \<longrightarrow>
        scale (pinchGesture_onUpdate cfg ev s) = pinch_scale ev
        \<and> focal_x (pinchGesture_onUpdate cfg ev s) =
            (center_x cfg - initialFocal_x s) * (pinch_scale ev - 1)
        \<and> focal_y (pinchGesture_onUpdate cfg ev s) =
            (center_y cfg - initialFocal_y s) * (pinch_scale ev - 1))"
proof -
  have sc: "scale (pinchGesture_onUpdate cfg ev s) =
      min (max (minScale cfg) (savedScale s * pinch_scale ev)) (maxScale cfg)"
    by (simp add: pinchGesture_onUpdate_def Let_def clamp_def)
  have fx: "focal_x (pinchGesture_onUpdate cfg ev s) =
      savedFocal_x s + (center_x cfg - initialFocal_x s)
        * (scale (pinchGesture_onUpdate cfg ev s) - savedScale s)"
    by (simp add: pinchGesture_onUpdate_def Let_def)
  have fy: "focal_y (pinchGesture_onUpdate cfg ev s) =
      savedFocal_y s + (center_y cfg - initialFocal_y s)
        * (scale (pinchGesture_onUpdate cfg ev s) - savedScale s)"
    by (simp add: pinchGesture_onUpdate_def Let_def)
  have cl: "scale (pinchGesture_onUpdate cfg ev s) =
      clamp (savedScale s * pinch_scale ev) (minScale cfg) (maxScale cfg)"
    by (simp add: sc clamp_def)
  have range: "minScale cfg \<le> scale (pinchGesture_onUpdate cfg ev s)
        \<and> scale (pinchGesture_onUpdate cfg ev s) \<le> maxScale cfg"
    if "minScale cfg \<le> maxScale cfg"
    using that by (simp add: sc)
  have inside: "scale (pinchGesture_onUpdate cfg ev s) = savedScale s * pinch_scale ev"
    if "minScale cfg \<le> savedScale s * pinch_scale ev"
      and "savedScale s * pinch_scale ev \<le> maxScale cfg"
    using that by (simp add: sc)
  have top: "scale (pinchGesture_onUpdate cfg ev s) = maxScale cfg"
    if "maxScale cfg \<le> savedScale s * pinch_scale ev"
    using that by (simp add: sc min_def max_def)
  have bot: "scale (pinchGesture_onUpdate cfg ev s) = minScale cfg"
    if "savedScale s * pinch_scale ev \<le> minScale cfg" and "minScale cfg \<le> maxScale cfg"
    using that by (simp add: sc min_def max_def)
  have unit: "scale (pinchGesture_onUpdate cfg ev s) = pinch_scale ev
        \<and> focal_x (pinchGesture_onUpdate cfg ev s) =
            (center_x cfg - initialFocal_x s) * (pinch_scale ev - 1)
        \<and> focal_y (pinchGesture_onUpdate cfg ev s) =
            (center_y cfg - initialFocal_y s) * (pinch_scale ev - 1)"
    if "savedScale s = 1" and "savedFocal_x s = 0" and "savedFocal_y s = 0"
      and "minScale cfg \<le> pinch_scale ev" and "pinch_scale ev \<le> maxScale cfg"
  proof -
    have "scale (pinchGesture_onUpdate cfg ev s) = pinch_scale ev"
      using inside that by simp
    then show ?thesis
      using fx fy that by simp
  qed
  have topf: "focal_x (pinchGesture_onUpdate cfg ev s) =
            savedFocal_x s + (center_x cfg - initialFocal_x s) * (maxScale cfg - savedScale s)
        \<and> focal_y (pinchGesture_onUpdate cfg ev s) =
            savedFocal_y s + (center_y cfg - initialFocal_y s) * (maxScale cfg - savedScale s)"
    if "maxScale cfg \<le> savedScale s * pinch_scale ev"
    using fx fy top [OF that] by simp
  have botf: "focal_x (pinchGesture_onUpdate cfg ev s) =
            savedFocal_x s + (center_x cfg - initialFocal_x s) * (minScale cfg - savedScale s)
        \<and> focal_y (pinchGesture_onUpdate cfg ev s) =
            savedFocal_y s + (center_y cfg - initialFocal_y s) * (minScale cfg - savedScale s)"
    if "savedScale s * pinch_scale ev \<le> minScale cfg" and "minScale cfg \<le> maxScale cfg"
    using fx fy bot [OF that] by simp
  show ?thesis
    using cl sc range inside top topf bot botf fx fy unit by blast
qed

theorem pinch_update_reanchors_witness:
  "scale (pinchGesture_onUpdate (default_config\<lparr> center_x := 100, center_y := 100 \<rparr>)
            \<lparr> pinch_scale = 3, focalX = 40, focalY = 70 \<rparr>
            (initial_state\<lparr> initialFocal_x := 40, initialFocal_y := 70 \<rparr>)) = 3
   \<and> focal_x (pinchGesture_onUpdate (default_config\<lparr> center_x := 100, center_y := 100 \<rparr>)
            \<lparr> pinch_scale = 3, focalX = 40, focalY = 70 \<rparr>
            (initial_state\<lparr> initialFocal_x := 40, initialFocal_y := 70 \<rparr>)) = 120
   \<and> focal_y (pinchGesture_onUpdate (default_config\<lparr> center_x := 100, center_y := 100 \<rparr>)
            \<lparr> pinch_scale = 3, focalX = 40, focalY = 70 \<rparr>
            (initial_state\<lparr> initialFocal_x := 40, initialFocal_y := 70 \<rparr>)) = 60
   \<and> scale (pinchGesture_onUpdate (default_config\<lparr> center_x := 100, center_y := 100 \<rparr>)
            \<lparr> pinch_scale = 10, focalX = 40, focalY = 70 \<rparr>
            (initial_state\<lparr> initialFocal_x := 40, initialFocal_y := 70 \<rparr>)) = 5
   \<and> focal_x (pinchGesture_onUpdate (default_config\<lparr> center_x := 100, center_y := 100 \<rparr>)
            \<lparr> pinch_scale = 10, focalX = 40, focalY = 70 \<rparr>
            (initial_state\<lparr> initialFocal_x := 40, initialFocal_y := 70 \<rparr>)) = 240
   \<and> scale (pinchGesture_onUpdate (default_config\<lparr> center_x := 100, center_y := 100 \<rparr>)
            \<lparr> pinch_scale = 1 / 4, focalX = 40, focalY = 70 \<rparr>
            (initial_state\<lparr> initialFocal_x := 40, initialFocal_y := 70 \<rparr>)) = 1"
proof -
  let ?cfg = "default_config\<lparr> center_x := 100, center_y := 100 \<rparr>"
  let ?s = "initial_state\<lparr> initialFocal_x := 40, initialFocal_y := 70 \<rparr>"
  have cfg: "minScale ?cfg = 1" "maxScale ?cfg = 5" "center_x ?cfg = 100" "center_y ?cfg = 100"
    by (simp_all add: default_config_def)
  have st: "savedScale ?s = 1" "savedFocal_x ?s = 0" "savedFocal_y ?s = 0"
    "initialFocal_x ?s = 40" "initialFocal_y ?s = 70"
    by (simp_all add: initial_state_def)
  have a: "scale (pinchGesture_onUpdate ?cfg \<lparr> pinch_scale = 3, focalX = 40, focalY = 70 \<rparr> ?s) = 3
    \<and> focal_x (pinchGesture_onUpdate ?cfg \<lparr> pinch_scale = 3, focalX = 40, focalY = 70 \<rparr> ?s) = 120
    \<and> focal_y (pinchGesture_onUpdate ?cfg \<lparr> pinch_scale = 3, focalX = 40, focalY = 70 \<rparr> ?s) = 60"
    using pinch_update_reanchors [of ?cfg "\<lparr> pinch_scale = 3, focalX = 40, focalY = 70 \<rparr>" ?s]
    unfolding cfg st by simp
  have b: "scale (pinchGesture_onUpdate ?cfg \<lparr> pinch_scale = 10, focalX = 40, focalY = 70 \<rparr> ?s) = 5
    \<and> focal_x (pinchGesture_onUpdate ?cfg \<lparr> pinch_scale = 10, focalX = 40, focalY = 70 \<rparr> ?s) = 240"
    using pinch_update_reanchors [of ?cfg "\<lparr> pinch_scale = 10, focalX = 40, focalY = 70 \<rparr>" ?s]
    unfolding cfg st by simp
  have c: "scale (pinchGesture_onUpdate ?cfg \<lparr> pinch_scale = 1 / 4, focalX = 40, focalY = 70 \<rparr> ?s) = 1"
    using pinch_update_reanchors [of ?cfg "\<lparr> pinch_scale = 1 / 4, focalX = 40, focalY = 70 \<rparr>" ?s]
    unfolding cfg st by simp
  show ?thesis
    using a b c by blast
qed

text \<open>
  C7. \<open>zoom\<close> with a target scale above 1 hands ZOOM_IN to the programmatic-zoom
  observer and starts three timing animations: scale to the target, focal x to
  (centre x - x) * (scale - 1), focal y likewise; nothing else changes, so translate is
  untouched. With a target scale of at most 1 it hands ZOOM_OUT to the observer and
  then runs \<open>reset\<close>.
\<close>

theorem zoom_in_or_reset:
  "(zoom_scale ev > 1 \<longrightarrow>
      zoom cfg ev s = s\<lparr> started := started s @
          [(SCALE, WithTiming (zoom_scale ev) None),
           (FOCAL_X, WithTiming ((center_x cfg - zoom_x ev) * (zoom_scale ev - 1)) None),
           (FOCAL_Y, WithTiming ((center_y cfg - zoom_y ev) * (zoom_scale ev - 1)) None)],
        js := js s @ [Call_onProgrammaticZoom ZOOM_IN] \<rparr>)
   \<and> (zoom_scale ev \<le> 1 \<longrightarrow>
      zoom cfg ev s = reset (s\<lparr> js := js s @ [Call_onProgrammaticZoom ZOOM_OUT] \<rparr>)
      \<and> new_js_calls (zoom cfg ev) s = [Call_onProgrammaticZoom ZOOM_OUT])"
  by (simp add: zoom_def Let_def runOnJS_def assign_animation_def new_js_calls_def reset_def
      getInteractionId_def)

theorem zoom_in_or_reset_witness:
  "zoom default_config \<lparr> zoom_scale = 2, zoom_x = 10, zoom_y = 20 \<rparr> initial_state
     = initial_state\<lparr> started := started initial_state @
          [(SCALE, WithTiming 2 None), (FOCAL_X, WithTiming (- 10) None),
           (FOCAL_Y, WithTiming (- 20) None)],
        js := js initial_state @ [Call_onProgrammaticZoom ZOOM_IN] \<rparr>
   \<and> zoom default_config \<lparr> zoom_scale = 1, zoom_x = 10, zoom_y = 20 \<rparr> initial_state
     = reset (initial_state\<lparr> js := js initial_state @ [Call_onProgrammaticZoom ZOOM_OUT] \<rparr>)"
  using zoom_in_or_reset [of "\<lparr> zoom_scale = 2, zoom_x = 10, zoom_y = 20 \<rparr>" default_config initial_state]
    zoom_in_or_reset [of "\<lparr> zoom_scale = 1, zoom_x = 10, zoom_y = 20 \<rparr>" default_config initial_state]
  by (simp add: default_config_def)

lemma sum_values_pair: "sum_values [a, b] = a + b"
  by (simp add: sum_values_def)

lemma moveIntoView_zoomed:
  assumes "scale s > 1"
  shows "moveIntoView cfg s = s\<lparr> started := started s @
     (if sum_values [translate_x s, focal_x s] > limits_right (width cfg) (scale s) then
        [(TRANSLATE_X, WithTiming (limits_right (width cfg) (scale s)) None),
         (FOCAL_X, WithTiming 0 None)]
      else if sum_values [translate_x s, focal_x s] < - limits_right (width cfg) (scale s) then
        [(TRANSLATE_X, WithTiming (- limits_right (width cfg) (scale s)) None),
         (FOCAL_X, WithTiming 0 None)]
      else [])
     @
     (if sum_values [translate_y s, focal_y s] > limits_bottom (height cfg) (scale s) then
        [(TRANSLATE_Y, WithTiming (limits_bottom (height cfg) (scale s)) None),
         (FOCAL_Y, WithTiming 0 None)]
      else if sum_values [translate_y s, focal_y s] < - limits_bottom (height cfg) (scale s) then
        [(TRANSLATE_Y, WithTiming (- limits_bottom (height cfg) (scale s)) None),
         (FOCAL_Y, WithTiming 0 None)]
      else []) \<rparr>"
  using assms by (simp add: moveIntoView_def Let_def assign_animation_def)

text \<open>
  C6. \<open>moveIntoView\<close> at a scale above 1 only starts animations, none of them on the
  scale; on each axis it starts animations exactly when the combined offset
  (translate + focal) exceeds the axis limit in absolute value, and then they are:
  translate to the limit that was exceeded, focal to 0; an axis within its limits gets
  none. At a scale of at most 1 it is \<open>reset\<close>.
\<close>

theorem moveIntoView_axes_independent:
  "(scale s > 1 \<longrightarrow>
      moveIntoView cfg s = s\<lparr> started := started s @ new_animations (moveIntoView cfg) s \<rparr>
      \<and> SCALE \<notin> fst ` set (new_animations (moveIntoView cfg) s)
      \<and> filter on_x_axis (new_animations (moveIntoView cfg) s) =
          (if \<bar>translate_x s + focal_x s\<bar> > width cfg * (scale s - 1) / 2 then
             [(TRANSLATE_X, WithTiming
                 (if translate_x s + focal_x s > width cfg * (scale s - 1) / 2
                  then width cfg * (scale s - 1) / 2 else - (width cfg * (scale s - 1) / 2)) None),
              (FOCAL_X, WithTiming 0 None)]
           else [])
      \<and> filter on_y_axis (new_animations (moveIntoView cfg) s) =
          (if \<bar>translate_y s + focal_y s\<bar> > height cfg * (scale s - 1) / 2 then
             [(TRANSLATE_Y, WithTiming
                 (if translate_y s + focal_y s > height cfg * (scale s - 1) / 2
                  then height cfg * (scale s - 1) / 2 else - (height cfg * (scale s - 1) / 2)) None),
              (FOCAL_Y, WithTiming 0 None)]
           else []))
   \<and> (scale s \<le> 1 \<longrightarrow> moveIntoView cfg s = reset s)"
proof -
  have low: "moveIntoView cfg s = reset s" if "scale s \<le> 1"
    using that by (simp add: moveIntoView_def)
  have high: ?thesis if z: "scale s > 1"
  proof -
    note mv = moveIntoView_zoomed [OF z, of cfg]
    have new: "new_animations (moveIntoView cfg) s =
     (if sum_values [translate_x s, focal_x s] > limits_right (width cfg) (scale s) then
        [(TRANSLATE_X, WithTiming (limits_right (width cfg) (scale s)) None),
         (FOCAL_X, WithTiming 0 None)]
      else if sum_values [translate_x s, focal_x s] < - limits_right (width cfg) (scale s) then
        [(TRANSLATE_X, WithTiming (- limits_right (width cfg) (scale s)) None),
         (FOCAL_X, WithTiming 0 None)]
      else [])
     @
     (if sum_values [translate_y s, focal_y s] > limits_bottom (height cfg) (scale s) then
        [(TRANSLATE_Y, WithTiming (limits_bottom (height cfg) (scale s)) None),
         (FOCAL_Y, WithTiming 0 None)]
      else if sum_values [translate_y s, focal_y s] < - limits_bottom (height cfg) (scale s) then
        [(TRANSLATE_Y, WithTiming (- limits_bottom (height cfg) (scale s)) None),
         (FOCAL_Y, WithTiming 0 None)]
      else [])"
      unfolding new_animations_def by (subst mv) simp
    have frame: "moveIntoView cfg s = s\<lparr> started := started s @ new_animations (moveIntoView cfg) s \<rparr>"
      unfolding new by (rule mv)
    have noscale: "SCALE \<notin> fst ` set (new_animations (moveIntoView cfg) s)"
      unfolding new by auto
    have xs: "filter on_x_axis (new_animations (moveIntoView cfg) s) =
          (if \<bar>translate_x s + focal_x s\<bar> > width cfg * (scale s - 1) / 2 then
             [(TRANSLATE_X, WithTiming
                 (if translate_x s + focal_x s > width cfg * (scale s - 1) / 2
                  then width cfg * (scale s - 1) / 2 else - (width cfg * (scale s - 1) / 2)) None),
              (FOCAL_X, WithTiming 0 None)]
           else [])"
      unfolding new by (simp add: on_x_axis_def sum_values_pair limits_right_def abs_if)
    have ys: "filter on_y_axis (new_animations (moveIntoView cfg) s) =
          (if \<bar>translate_y s + focal_y s\<bar> > height cfg * (scale s - 1) / 2 then
             [(TRANSLATE_Y, WithTiming
                 (if translate_y s + focal_y s > height cfg * (scale s - 1) / 2
                  then height cfg * (scale s - 1) / 2 else - (height cfg * (scale s - 1) / 2)) None),
              (FOCAL_Y, WithTiming 0 None)]
           else [])"
      unfolding new by (simp add: on_y_axis_def sum_values_pair limits_bottom_def abs_if)
    show ?thesis
      using z frame noscale xs ys by simp
  qed
  show ?thesis
    using low high by (cases "scale s > 1") simp_all
qed

theorem moveIntoView_axes_independent_witness:
  "filter on_x_axis (new_animations (moveIntoView (default_config\<lparr> width := 300, height := 400 \<rparr>))
      (initial_state\<lparr> scale := 2, translate_x := 200, focal_x := - 20, translate_y := 30 \<rparr>))
     = [(TRANSLATE_X, WithTiming 150 None), (FOCAL_X, WithTiming 0 None)]
   \<and> filter on_y_axis (new_animations (moveIntoView (default_config\<lparr> width := 300, height := 400 \<rparr>))
      (initial_state\<lparr> scale := 2, translate_x := 200, focal_x := - 20, translate_y := 30 \<rparr>))
     = []
   \<and> moveIntoView default_config initial_state = reset initial_state"
  using moveIntoView_axes_independent [of
      "initial_state\<lparr> scale := 2, translate_x := 200, focal_x := - 20, translate_y := 30 \<rparr>"
      "default_config\<lparr> width := 300, height := 400 \<rparr>"]
    moveIntoView_axes_independent [of initial_state default_config]
  by (simp add: default_config_def initial_state_def)

text \<open>
  C4, as amended. When a pan ends at a scale above 1 with double tap enabled, either
  recognizer issues no pan-end call itself and starts one decay per axis; the x-axis
  callback issues the pan-end call exactly when \<^verbatim>\<open>velocityX >= velocityY\<close>, the y-axis
  callback exactly when \<^verbatim>\<open>velocityY > velocityX\<close> (signed velocities); so the two
  callbacks together, in either order, issue exactly one pan-end call.
\<close>

theorem pan_release_signals_once:
  assumes "scale s > 1" and "isDoubleTapEnabled cfg"
  shows "new_js_calls (panWhilePinchingGesture_onEnd cfg ev success) s = []
    \<and> new_js_calls (panOnlyGesture_onEnd cfg ev success) s = []
    \<and> new_animations (panWhilePinchingGesture_onEnd cfg ev success) s =
        [(TRANSLATE_X, WithDecay \<lparr> velocity = velocityX ev, velocityFactor = 6 / 10,
             rubberBandEffect = True, rubberBandFactor = 9 / 10,
             clamp_lo = - limits_right (width cfg) (scale s) - focal_x s,
             clamp_hi = limits_right (width cfg) (scale s) - focal_x s \<rparr> (DecayEndX ev success)),
         (TRANSLATE_Y, WithDecay \<lparr> velocity = velocityY ev, velocityFactor = 6 / 10,
             rubberBandEffect = True, rubberBandFactor = 9 / 10,
             clamp_lo = - limits_bottom (height cfg) (scale s) - focal_y s,
             clamp_hi = limits_bottom (height cfg) (scale s) - focal_y s \<rparr> (DecayEndY ev success))]
    \<and> new_animations (panOnlyGesture_onEnd cfg ev success) s =
        new_animations (panWhilePinchingGesture_onEnd cfg ev success) s
    \<and> new_js_calls (run_callback cfg (DecayEndX ev success) fin cur) t =
        (if velocityX ev \<ge> velocityY ev then [Call_onPanEnded ev success] else [])
    \<and> new_js_calls (run_callback cfg (DecayEndY ev success) fin cur) t =
        (if velocityY ev > velocityX ev then [Call_onPanEnded ev success] else [])
    \<and> new_js_calls (\<lambda>t. run_callback cfg (DecayEndY ev success) fin' cur'
                       (run_callback cfg (DecayEndX ev success) fin cur t)) t =
        [Call_onPanEnded ev success]
    \<and> new_js_calls (\<lambda>t. run_callback cfg (DecayEndX ev success) fin cur
                       (run_callback cfg (DecayEndY ev success) fin' cur' t)) t =
        [Call_onPanEnded ev success]"
  using assms
  by (simp add: new_js_calls_def new_animations_def panWhilePinchingGesture_onEnd_def
      panOnlyGesture_onEnd_def Let_def assign_animation_def runOnJS_def)

theorem pan_release_signals_once_witness:
  "new_js_calls (\<lambda>t. run_callback default_config
        (DecayEndY \<lparr> translationX = 0, translationY = 0, velocityX = - 1000, velocityY = 10 \<rparr> True)
        (Some True) None
        (run_callback default_config
          (DecayEndX \<lparr> translationX = 0, translationY = 0, velocityX = - 1000, velocityY = 10 \<rparr> True)
          (Some True) None t))
      (initial_state\<lparr> scale := 2 \<rparr>)
    = [Call_onPanEnded \<lparr> translationX = 0, translationY = 0, velocityX = - 1000, velocityY = 10 \<rparr> True]"
  using pan_release_signals_once [where s = "initial_state\<lparr> scale := 2 \<rparr>"
      and cfg = "default_config\<lparr> isDoubleTapEnabled := True \<rparr>"
      and ev = "\<lparr> translationX = 0, translationY = 0, velocityX = - 1000, velocityY = 10 \<rparr>"
      and success = True and fin = "Some True" and cur = None and fin' = "Some True"
      and cur' = None and t = "initial_state\<lparr> scale := 2 \<rparr>"]
  by (simp add: new_js_calls_def)

text \<open>
  C4 as stated fails: releasing with velocity (-1000, 10), the y-axis callback issues the
  pan-end call and the x-axis callback does not, although the x-axis has the greater
  release speed.
\<close>

theorem pan_release_dominant_speed_counterexample:
  "new_js_calls (run_callback default_config
        (DecayEndY \<lparr> translationX = 0, translationY = 0, velocityX = - 1000, velocityY = 10 \<rparr> True)
        (Some True) None) initial_state
     = [Call_onPanEnded \<lparr> translationX = 0, translationY = 0, velocityX = - 1000, velocityY = 10 \<rparr> True]
   \<and> new_js_calls (run_callback default_config
        (DecayEndX \<lparr> translationX = 0, translationY = 0, velocityX = - 1000, velocityY = 10 \<rparr> True)
        (Some True) None) initial_state = []
   \<and> \<bar>velocityY \<lparr> translationX = 0, translationY = 0, velocityX = - 1000, velocityY = 10 \<rparr>\<bar>
       < \<bar>velocityX \<lparr> translationX = 0, translationY = 0, velocityX = - 1000, velocityY = 10 \<rparr>\<bar>"
  by (simp add: new_js_calls_def runOnJS_def)

lemma panOnly_failed_absorbs: "foldl (panOnly_deliver cfg) (FAILED, s) signals = (FAILED, s)"
proof (induction signals)
  case Nil
  then show ?case by simp
next
  case (Cons sig signals)
  have "panOnly_deliver cfg (FAILED, s) sig = (FAILED, s)"
    by (cases sig) simp_all
  then show ?case using Cons.IH by simp
qed

text \<open>
  C5. At a scale of at most 1 the touch-down handler of the pan-only recognizer fails
  it; the recognizer, not yet activated, is then failed, and whatever the rest of the
  touch sequence is, the state is unchanged: the transform as it was, and no pan-start
  or pan-end call issued.
\<close>

theorem panOnly_inert_at_scale_one:
  assumes "scale s \<le> 1"
  shows "panOnlyGesture_onTouchesDown s
    \<and> panOnly_deliver cfg (UNDETERMINED, s) TouchesDown = (FAILED, s)
    \<and> panOnly_sequence cfg (TouchesDown # signals) s = (FAILED, s)"
  using assms
  by (simp add: panOnly_sequence_def panOnlyGesture_onTouchesDown_def panOnly_failed_absorbs)

theorem panOnly_inert_at_scale_one_witness:
  "scale initial_state \<le> 1
   \<and> panOnly_sequence default_config
        [TouchesDown,
         Activated \<lparr> translationX = 0, translationY = 0, velocityX = 0, velocityY = 0 \<rparr>,
         Moved \<lparr> translationX = 30, translationY = 5, velocityX = 200, velocityY = 10 \<rparr>,
         Released \<lparr> translationX = 30, translationY = 5, velocityX = 200, velocityY = 10 \<rparr> True]
        initial_state = (FAILED, initial_state)"
proof -
  have h: "scale initial_state \<le> 1"
    by (simp add: initial_state_def)
  show ?thesis
    using h panOnly_inert_at_scale_one [OF h] by simp
qed

subsection \<open>reset and its settling\<close>

lemma reset_eq:
  "reset s = s\<lparr> savedScale := 1, initialFocal_x := 0, initialFocal_y := 0,
       savedFocal_x := 0, savedFocal_y := 0, savedTranslate_x := 0, savedTranslate_y := 0,
       started := started s @
         [(SCALE, WithTiming 1 (Some (ResetEnd (interactionId s) SCALE (scale s)))),
          (FOCAL_X, WithTiming 0 (Some (ResetEnd (interactionId s) FOCAL_X (focal_x s)))),
          (FOCAL_Y, WithTiming 0 (Some (ResetEnd (interactionId s) FOCAL_Y (focal_y s)))),
          (TRANSLATE_X, WithTiming 0 (Some (ResetEnd (interactionId s) TRANSLATE_X (translate_x s)))),
          (TRANSLATE_Y, WithTiming 0 (Some (ResetEnd (interactionId s) TRANSLATE_Y (translate_y s))))] \<rparr>"
  by (simp add: reset_def Let_def assign_animation_def getInteractionId_def)

lemma new_animations_reset:
  "new_animations reset s =
         [(SCALE, WithTiming 1 (Some (ResetEnd (interactionId s) SCALE (cell_value SCALE s)))),
          (FOCAL_X, WithTiming 0 (Some (ResetEnd (interactionId s) FOCAL_X (cell_value FOCAL_X s)))),
          (FOCAL_Y, WithTiming 0 (Some (ResetEnd (interactionId s) FOCAL_Y (cell_value FOCAL_Y s)))),
          (TRANSLATE_X, WithTiming 0 (Some (ResetEnd (interactionId s) TRANSLATE_X (cell_value TRANSLATE_X s)))),
          (TRANSLATE_Y, WithTiming 0 (Some (ResetEnd (interactionId s) TRANSLATE_Y (cell_value TRANSLATE_Y s))))]"
  by (simp add: new_animations_def reset_eq cell_value_def)

lemma cell_value_runOnJS: "cell_value c (runOnJS x t) = cell_value c t"
  by (cases c) (simp_all add: cell_value_def runOnJS_def)

lemma cell_value_onAnimationEnd:
  "cell_value c (onAnimationEnd cfg iid v lastV fin cur t) = cell_value c t"
  by (cases c) (simp_all add: cell_value_def onAnimationEnd_def Let_def runOnJS_def)

lemma cell_value_run_callback: "cell_value c (run_callback cfg cb fin cur t) = cell_value c t"
  by (cases cb) (simp_all add: cell_value_onAnimationEnd cell_value_runOnJS)

lemma cell_value_set_cell:
  "cell_value c (set_cell c' v t) = (if c = c' then v else cell_value c t)"
  by (cases c; cases c') (simp_all add: cell_value_def set_cell_def)

lemma cell_value_timing_settles:
  "cell_value c (timing_settles cfg (c', v, cb, cur) t) = (if c = c' then v else cell_value c t)"
  by (cases cb) (simp_all add: cell_value_run_callback cell_value_set_cell)

lemma settle_all_cell_frame:
  "c \<notin> fst ` set p \<Longrightarrow> cell_value c (settle_all cfg p t) = cell_value c t"
proof (induction p arbitrary: t)
  case Nil
  then show ?case by simp
next
  case (Cons a p)
  obtain c' v cb cur where a: "a = (c', v, cb, cur)"
    by (cases a) auto
  from Cons.prems have "c \<noteq> c'" and "c \<notin> fst ` set p"
    by (auto simp: a)
  then show ?case
    using Cons.IH [of "timing_settles cfg a t"] by (simp add: a cell_value_timing_settles)
qed

lemma settle_all_cell:
  "c \<in> fst ` set p \<Longrightarrow> \<forall>a\<in>set p. fst (snd a) = T (fst a) \<Longrightarrow>
   cell_value c (settle_all cfg p t) = T c"
proof (induction p arbitrary: t)
  case Nil
  then show ?case by simp
next
  case (Cons a p)
  obtain c' v cb cur where a: "a = (c', v, cb, cur)"
    by (cases a) auto
  show ?case
  proof (cases "c \<in> fst ` set p")
    case True
    then show ?thesis
      using Cons.IH [of "timing_settles cfg a t"] Cons.prems(2) by simp
  next
    case False
    with Cons.prems have "c = c'" and "v = T c'"
      by (auto simp: a)
    then show ?thesis
      using settle_all_cell_frame [OF False, of cfg "timing_settles cfg a t"]
      by (simp add: a cell_value_timing_settles)
  qed
qed

lemma set_cell_aggregator: "endValues (set_cell c v t) = endValues t \<and> js (set_cell c v t) = js t"
  by (cases c) (simp_all add: set_cell_def)

lemma onAnimationEnd_aggregator:
  "endValues t = endValues t' \<Longrightarrow> js t = js t' \<Longrightarrow>
   endValues (onAnimationEnd cfg iid v lastV fin cur t)
     = endValues (onAnimationEnd cfg iid v lastV fin cur t')
   \<and> js (onAnimationEnd cfg iid v lastV fin cur t) = js (onAnimationEnd cfg iid v lastV fin cur t')"
  by (simp add: onAnimationEnd_def Let_def runOnJS_def)

lemma settle_all_as_feed:
  assumes "\<forall>a\<in>set p. \<exists>c v cur. a = (c, v, Some (ResetEnd iid c (L c)), cur)"
    and "endValues t = endValues t'" and "js t = js t'"
  shows "endValues (settle_all cfg p t)
      = endValues (feed cfg (map (Pair iid) (map (\<lambda>(c, v, cb, cur). (c, L c, Some True, cur)) p)) t')
    \<and> js (settle_all cfg p t)
      = js (feed cfg (map (Pair iid) (map (\<lambda>(c, v, cb, cur). (c, L c, Some True, cur)) p)) t')"
  using assms
proof (induction p arbitrary: t t')
  case Nil
  then show ?case by simp
next
  case (Cons a p)
  from Cons.prems(1) obtain c v cur where a: "a = (c, v, Some (ResetEnd iid c (L c)), cur)"
    by auto
  let ?t = "timing_settles cfg a t"
  let ?t' = "onAnimationEnd cfg iid c (L c) (Some True) cur t'"
  have e: "endValues (set_cell c v t) = endValues t'" and j: "js (set_cell c v t) = js t'"
    using Cons.prems(2,3) by (simp_all add: set_cell_aggregator)
  have "endValues ?t = endValues ?t' \<and> js ?t = js ?t'"
    unfolding a timing_settles.simps run_callback.simps
    by (rule onAnimationEnd_aggregator [OF e j])
  moreover have "\<forall>a\<in>set p. \<exists>c v cur. a = (c, v, Some (ResetEnd iid c (L c)), cur)"
    using Cons.prems(1) by simp
  ultimately show ?case
    using Cons.IH [of ?t ?t'] by (simp add: a)
qed

lemma mset_started_cells:
  assumes "mset (map started_entry p) = mset (new_animations reset s)"
  shows "mset (map fst p) = mset ANIMATION_VALUES"
proof -
  have "fst \<circ> started_entry = fst"
    by (auto simp: fun_eq_iff started_entry_def)
  then have "map fst (map started_entry p) = map fst p"
    by (simp only: map_map)
  then have "mset (map fst p) = image_mset fst (mset (map started_entry p))"
    by (simp only: mset_map [symmetric])
  also have "\<dots> = image_mset fst (mset (new_animations reset s))"
    by (simp only: assms)
  also have "\<dots> = mset ANIMATION_VALUES"
    by (simp add: new_animations_reset ANIMATION_VALUES_def)
  finally show ?thesis .
qed

lemma started_shape:
  assumes "mset (map started_entry p) = mset (new_animations reset s)" and "a \<in> set p"
  shows "\<exists>c v cur. a = (c, v, Some (ResetEnd (interactionId s) c (cell_value c s)), cur)
           \<and> v = (if c = SCALE then 1 else 0)"
proof -
  obtain c v cb cur where a: "a = (c, v, cb, cur)"
    by (cases a) auto
  have "set (map started_entry p) = set (new_animations reset s)"
    using assms(1) by (rule mset_eq_setD)
  then have "started_entry a \<in> set (new_animations reset s)"
    using assms(2) by auto
  then show ?thesis
    by (auto simp: a started_entry_def new_animations_reset)
qed

lemma reset_settles_aux:
  assumes cb: "onResetAnimationEnd cfg"
    and fresh: "endValues s (interactionId s) = None"
    and perm: "mset (map started_entry p) = mset (new_animations reset s)"
  shows "cell_value c (settle_all cfg p (reset s)) = (if c = SCALE then 1 else 0)"
    and "js (settle_all cfg p (reset s)) = js s @ [Call_onResetAnimationEnd True
          (record_of (map (\<lambda>(c, toValue, cb, cur). (c, cell_value c s, Some True, cur)) p))]"
    and "endValues (settle_all cfg p (reset s)) (interactionId s) = None"
proof -
  let ?iid = "interactionId s"
  let ?evs = "map (\<lambda>(c, toValue, cb, cur). (c, cell_value c s, Some True, cur)) p"
  have cells: "mset (map fst p) = mset ANIMATION_VALUES"
    using perm by (rule mset_started_cells)
  have dist: "distinct (map fst p)"
    using mset_eq_imp_distinct_iff [OF cells] by (simp add: ANIMATION_VALUES_def)
  have cover: "set (map fst p) = UNIV"
    using mset_eq_setD [OF cells] by (simp add: set_ANIMATION_VALUES)
  have shape: "\<forall>a\<in>set p. \<exists>c v cur. a = (c, v, Some (ResetEnd ?iid c (cell_value c s)), cur)
           \<and> v = (if c = SCALE then 1 else 0)"
    using started_shape [OF perm] by blast
  have targets: "\<forall>a\<in>set p. fst (snd a) = (if fst a = SCALE then 1 else (0::real))"
    using shape by fastforce
  have "c \<in> fst ` set p"
    using cover by simp
  from settle_all_cell [OF this targets]
  show "cell_value c (settle_all cfg p (reset s)) = (if c = SCALE then 1 else 0)" .
  have fsts: "map fst ?evs = map fst p"
    by (induction p) auto
  have dist': "distinct (map fst ?evs)"
    using dist by (simp only: fsts)
  have cover': "fst ` set ?evs = UNIV"
    using cover fsts by (metis set_map)
  have fresh': "endValues (reset s) ?iid = None"
    using fresh by (simp add: reset_eq)
  have "?evs \<noteq> []"
    using cover' by auto
  then obtain pre e where evs: "?evs = pre @ [e]"
    by (cases ?evs rule: rev_cases) auto
  have fed: "feed cfg (map (Pair ?iid) ?evs) (reset s) =
      (reset s)\<lparr> js := js (reset s) @ [Call_onResetAnimationEnd (all_finished (record_of ?evs))
                       (record_of ?evs)],
         endValues := (endValues (reset s))(?iid := None) \<rparr>"
    using feed_completes [OF cb fresh', of pre e] dist' cover' unfolding evs by blast
  have allfin: "all_finished (record_of ?evs)"
    unfolding all_finished_record_of [OF dist'] by auto
  have shape': "\<forall>a\<in>set p. \<exists>c v cur. a = (c, v, Some (ResetEnd ?iid c (cell_value c s)), cur)"
    using shape by blast
  have agg: "endValues (settle_all cfg p (reset s)) = endValues (feed cfg (map (Pair ?iid) ?evs) (reset s))
    \<and> js (settle_all cfg p (reset s)) = js (feed cfg (map (Pair ?iid) ?evs) (reset s))"
    by (rule settle_all_as_feed [OF shape' refl refl])
  have js0: "js (reset s) = js s"
    by (simp add: reset_eq)
  show "js (settle_all cfg p (reset s)) = js s @ [Call_onResetAnimationEnd True (record_of ?evs)]"
    using agg allfin by (simp add: fed js0 del: map_map)
  show "endValues (settle_all cfg p (reset s)) ?iid = None"
    using agg by (simp add: fed del: map_map)
qed

text \<open>
  C3. \<open>reset\<close> reads the current interaction id, sets the saved scale to 1 and the
  initial focal, saved focal and saved translate to 0 at once, and starts exactly five
  timing animations: scale to 1, focal x, focal y, translate x and translate y to 0, each
  with a completion callback that goes to \<open>onAnimationEnd\<close> under that interaction id
  and its own target. When the reset-completion callback is supplied, the session has no
  earlier record, and the five animations run to their ends uninterrupted, in whatever
  order they complete: scale is 1, focal and translate are 0 on both axes, and exactly
  one call of the reset-completion callback has been issued, with \<^verbatim>\<open>finished = true\<close>.
\<close>

theorem reset_settles_once:
  "reset s = s\<lparr> savedScale := 1, initialFocal_x := 0, initialFocal_y := 0,
       savedFocal_x := 0, savedFocal_y := 0, savedTranslate_x := 0, savedTranslate_y := 0,
       started := started s @
         [(SCALE, WithTiming 1 (Some (ResetEnd (interactionId s) SCALE (scale s)))),
          (FOCAL_X, WithTiming 0 (Some (ResetEnd (interactionId s) FOCAL_X (focal_x s)))),
          (FOCAL_Y, WithTiming 0 (Some (ResetEnd (interactionId s) FOCAL_Y (focal_y s)))),
          (TRANSLATE_X, WithTiming 0 (Some (ResetEnd (interactionId s) TRANSLATE_X (translate_x s)))),
          (TRANSLATE_Y, WithTiming 0 (Some (ResetEnd (interactionId s) TRANSLATE_Y (translate_y s))))] \<rparr>
   \<and> (onResetAnimationEnd cfg \<and> endValues s (interactionId s) = None
        \<and> mset (map started_entry p) = mset (new_animations reset s) \<longrightarrow>
        scale (settle_all cfg p (reset s)) = 1
        \<and> focal_x (settle_all cfg p (reset s)) = 0
        \<and> focal_y (settle_all cfg p (reset s)) = 0
        \<and> translate_x (settle_all cfg p (reset s)) = 0
        \<and> translate_y (settle_all cfg p (reset s)) = 0
        \<and> js (settle_all cfg p (reset s)) = js s @ [Call_onResetAnimationEnd True
            (record_of (map (\<lambda>(c, toValue, cb, cur). (c, cell_value c s, Some True, cur)) p))]
        \<and> endValues (settle_all cfg p (reset s)) (interactionId s) = None)"
proof -
  have settled: "scale (settle_all cfg p (reset s)) = 1
        \<and> focal_x (settle_all cfg p (reset s)) = 0
        \<and> focal_y (settle_all cfg p (reset s)) = 0
        \<and> translate_x (settle_all cfg p (reset s)) = 0
        \<and> translate_y (settle_all cfg p (reset s)) = 0
        \<and> js (settle_all cfg p (reset s)) = js s @ [Call_onResetAnimationEnd True
            (record_of (map (\<lambda>(c, toValue, cb, cur). (c, cell_value c s, Some True, cur)) p))]
        \<and> endValues (settle_all cfg p (reset s)) (interactionId s) = None"
    if cb: "onResetAnimationEnd cfg" and fresh: "endValues s (interactionId s) = None"
      and perm: "mset (map started_entry p) = mset (new_animations reset s)"
  proof -
    note aux = reset_settles_aux [OF cb fresh perm]
    show ?thesis
      using aux(1) [of SCALE] aux(1) [of FOCAL_X] aux(1) [of FOCAL_Y] aux(1) [of TRANSLATE_X]
        aux(1) [of TRANSLATE_Y] aux(2) aux(3)
      by (simp add: cell_value_def)
  qed
  show ?thesis
    using reset_eq [of s] settled by blast
qed

theorem reset_settles_once_witness:
  "scale (settle_all (default_config\<lparr> onResetAnimationEnd := True \<rparr>)
      [(FOCAL_Y, 0, Some (ResetEnd [] FOCAL_Y 0), None),
       (SCALE, 1, Some (ResetEnd [] SCALE 3), None),
       (TRANSLATE_X, 0, Some (ResetEnd [] TRANSLATE_X 25), None),
       (FOCAL_X, 0, Some (ResetEnd [] FOCAL_X (- 40)), None),
       (TRANSLATE_Y, 0, Some (ResetEnd [] TRANSLATE_Y 0), None)]
      (reset (initial_state\<lparr> scale := 3, focal_x := - 40, translate_x := 25 \<rparr>))) = 1
   \<and> translate_x (settle_all (default_config\<lparr> onResetAnimationEnd := True \<rparr>)
      [(FOCAL_Y, 0, Some (ResetEnd [] FOCAL_Y 0), None),
       (SCALE, 1, Some (ResetEnd [] SCALE 3), None),
       (TRANSLATE_X, 0, Some (ResetEnd [] TRANSLATE_X 25), None),
       (FOCAL_X, 0, Some (ResetEnd [] FOCAL_X (- 40)), None),
       (TRANSLATE_Y, 0, Some (ResetEnd [] TRANSLATE_Y 0), None)]
      (reset (initial_state\<lparr> scale := 3, focal_x := - 40, translate_x := 25 \<rparr>))) = 0
   \<and> length (js (settle_all (default_config\<lparr> onResetAnimationEnd := True \<rparr>)
      [(FOCAL_Y, 0, Some (ResetEnd [] FOCAL_Y 0), None),
       (SCALE, 1, Some (ResetEnd [] SCALE 3), None),
       (TRANSLATE_X, 0, Some (ResetEnd [] TRANSLATE_X 25), None),
       (FOCAL_X, 0, Some (ResetEnd [] FOCAL_X (- 40)), None),
       (TRANSLATE_Y, 0, Some (ResetEnd [] TRANSLATE_Y 0), None)]
      (reset (initial_state\<lparr> scale := 3, focal_x := - 40, translate_x := 25 \<rparr>)))) = 1"
proof -
  let ?cfg = "default_config\<lparr> onResetAnimationEnd := True \<rparr>"
  let ?s = "initial_state\<lparr> scale := 3, focal_x := - 40, translate_x := 25 \<rparr>"
  let ?p = "[(FOCAL_Y, 0::real, Some (ResetEnd [] FOCAL_Y 0), None::real option),
       (SCALE, 1, Some (ResetEnd [] SCALE 3), None),
       (TRANSLATE_X, 0, Some (ResetEnd [] TRANSLATE_X 25), None),
       (FOCAL_X, 0, Some (ResetEnd [] FOCAL_X (- 40)), None),
       (TRANSLATE_Y, 0, Some (ResetEnd [] TRANSLATE_Y 0), None)]"
  have cb: "onResetAnimationEnd ?cfg"
    by simp
  have fresh: "endValues ?s (interactionId ?s) = None"
    by (simp add: initial_state_def)
  have perm: "mset (map started_entry ?p) = mset (new_animations reset ?s)"
    by (simp add: new_animations_reset started_entry_def cell_value_def initial_state_def)
  have j0: "js ?s = []"
    by (simp add: initial_state_def)
  from reset_settles_once [of ?s ?cfg ?p] cb fresh perm
  have r: "scale (settle_all ?cfg ?p (reset ?s)) = 1
        \<and> translate_x (settle_all ?cfg ?p (reset ?s)) = 0
        \<and> js (settle_all ?cfg ?p (reset ?s)) = js ?s @ [Call_onResetAnimationEnd True
            (record_of (map (\<lambda>(c, toValue, cb, cur). (c, cell_value c ?s, Some True, cur)) ?p))]"
    by blast
  then have "length (js (settle_all ?cfg ?p (reset ?s))) = 1"
    by (simp only: j0 append_Nil list.size)
  with r show ?thesis
    by blast
qed

end
